theory Spec2Isabelle
  imports Main
begin

section \<open>Strings as Python sees them\<close>

text \<open>
  The module \<open>unicycler/misc.py\<close> works on Python \<open>str\<close> values. A \<open>str\<close> is modelled as
  a \<^typ>\<open>string\<close>, one \<^typ>\<open>char\<close> per code point, so the model covers the code points
  0 to 255; \<open>len\<close> is \<^const>\<open>length\<close>. The character classes below are those of Python for
  these code points.
\<close>

definition ESC :: char where
  "ESC = CHR 0x1B"

definition code :: "char \<Rightarrow> nat" where
  "code c = of_char c"

text \<open>\<open>s.startswith(p)\<close>.\<close>

fun startswith :: "string \<Rightarrow> string \<Rightarrow> bool" where
  "startswith [] s = True"
| "startswith (p # ps) [] = False"
| "startswith (p # ps) (c # cs) = (p = c \<and> startswith ps cs)"

text \<open>\<open>sub in s\<close>.\<close>

fun str_contains :: "string \<Rightarrow> string \<Rightarrow> bool" where
  "str_contains sub [] = (sub = [])"
| "str_contains sub (c # cs) = (startswith sub (c # cs) \<or> str_contains sub cs)"

text \<open>
  \<open>s.replace(old, new)\<close>: the occurrences of \<open>old\<close> are found from the left and do not
  overlap; an empty \<open>old\<close> matches before every character and at the end.
\<close>

fun replace_nonempty :: "string \<Rightarrow> string \<Rightarrow> string \<Rightarrow> string" where
  "replace_nonempty old new [] = []"
| "replace_nonempty old new (c # cs) =
     (if startswith old (c # cs) then new @ replace_nonempty old new (drop (length old - 1) cs)
      else c # replace_nonempty old new cs)"

definition str_replace :: "string \<Rightarrow> string \<Rightarrow> string \<Rightarrow> string" where
  "str_replace old new s =
     (if old = [] then new @ concat (map (\<lambda>c. c # new) s) else replace_nonempty old new s)"

text \<open>\<open>s.lower()\<close> on the code points 0 to 255.\<close>

definition lower_char :: "char \<Rightarrow> char" where
  "lower_char c =
     (let n = code c
      in if (65 \<le> n \<and> n \<le> 90) \<or> (192 \<le> n \<and> n \<le> 214) \<or> (216 \<le> n \<and> n \<le> 222)
         then char_of (n + 32) else c)"

definition str_lower :: "string \<Rightarrow> string" where
  "str_lower s = map lower_char s"

section \<open>The style encoder\<close>

definition END_FORMATTING :: string where
  "END_FORMATTING = ESC # ''[0m''"

definition BOLD :: string where
  "BOLD = ESC # ''[1m''"

definition UNDERLINE :: string where
  "UNDERLINE = ESC # ''[4m''"

definition RED :: string where
  "RED = ESC # ''[31m''"

definition GREEN :: string where
  "GREEN = ESC # ''[32m''"

definition MAGENTA :: string where
  "MAGENTA = ESC # ''[35m''"

definition YELLOW :: string where
  "YELLOW = ESC # ''[93m''"

definition DIM :: string where
  "DIM = ESC # ''[2m''"

text \<open>
  The colour code chosen by the \<open>if\<close>/\<open>elif\<close> chain of \<open>colour\<close>, from the style name
  with \<open>bold\<close>, \<open>underline\<close>, underscores and spaces removed and lowercased.
\<close>

definition colour_code :: "string \<Rightarrow> string" where
  "colour_code text_colour =
     (if str_contains ''red'' text_colour then RED
      else if str_contains ''green'' text_colour then GREEN
      else if str_contains ''yellow'' text_colour then YELLOW
      else if str_contains ''dim'' text_colour then DIM
      else [])"

definition colour :: "string \<Rightarrow> string \<Rightarrow> string" where
  "colour text text_colour =
     (let bold_text = str_contains ''bold'' text_colour;
          tc1 = str_replace ''bold'' [] text_colour;
          underline_text = str_contains ''underline'' tc1;
          tc2 = str_replace ''underline'' [] tc1;
          tc3 = str_replace ''_'' [] tc2;
          tc4 = str_replace '' '' [] tc3;
          tc5 = str_lower tc4;
          coloured_text = colour_code tc5
            @ (if bold_text then BOLD else [])
            @ (if underline_text then UNDERLINE else [])
      in if coloured_text = [] then text else coloured_text @ text @ END_FORMATTING)"

definition green :: "string \<Rightarrow> string" where
  "green text = GREEN @ text @ END_FORMATTING"

definition bold_green :: "string \<Rightarrow> string" where
  "bold_green text = GREEN @ BOLD @ text @ END_FORMATTING"

definition red :: "string \<Rightarrow> string" where
  "red text = RED @ text @ END_FORMATTING"

definition magenta :: "string \<Rightarrow> string" where
  "magenta text = MAGENTA @ text @ END_FORMATTING"

definition bold_red :: "string \<Rightarrow> string" where
  "bold_red text = RED @ BOLD @ text @ END_FORMATTING"

definition bold :: "string \<Rightarrow> string" where
  "bold text = BOLD @ text @ END_FORMATTING"

definition bold_underline :: "string \<Rightarrow> string" where
  "bold_underline text = BOLD @ UNDERLINE @ text @ END_FORMATTING"

definition underline :: "string \<Rightarrow> string" where
  "underline text = UNDERLINE @ text @ END_FORMATTING"

definition dim :: "string \<Rightarrow> string" where
  "dim text = DIM @ text @ END_FORMATTING"

definition dim_underline :: "string \<Rightarrow> string" where
  "dim_underline text = DIM @ UNDERLINE @ text @ END_FORMATTING"

definition bold_yellow :: "string \<Rightarrow> string" where
  "bold_yellow text = YELLOW @ BOLD @ text @ END_FORMATTING"

definition bold_yellow_underline :: "string \<Rightarrow> string" where
  "bold_yellow_underline text = YELLOW @ BOLD @ UNDERLINE @ text @ END_FORMATTING"

definition bold_red_underline :: "string \<Rightarrow> string" where
  "bold_red_underline text = RED @ BOLD @ UNDERLINE @ text @ END_FORMATTING"

section \<open>The visible-width measurer\<close>

text \<open>
  \<open>remove_formatting\<close> is \<open>re.sub('\033.*?m', '', text)\<close>. At an escape character the
  pattern matches up to the nearest following \<open>m\<close>, provided no line feed comes first
  (\<open>.\<close> does not match a line feed); \<open>after_m\<close> returns the text behind that \<open>m\<close>.
  Where the pattern does not match, the escape character stays and the scan moves on.
\<close>

fun after_m :: "string \<Rightarrow> string option" where
  "after_m [] = None"
| "after_m (c # cs) =
     (if c = CHR ''m'' then Some cs
      else if c = CHR 0x0A then None
      else after_m cs)"

lemma after_m_length: "after_m cs = Some r \<Longrightarrow> length r < length cs"
  by (induction cs) (auto split: if_splits)

function remove_formatting :: "string \<Rightarrow> string" where
  "remove_formatting [] = []"
| "remove_formatting (c # cs) =
     (if c = ESC
      then (case after_m cs of
              Some r \<Rightarrow> remove_formatting r
            | None \<Rightarrow> c # remove_formatting cs)
      else c # remove_formatting cs)"
  by pat_completeness auto
termination
  by (relation "measure length") (auto dest: after_m_length)

text \<open>
  \<open>len_without_format\<close>: the \<open>TypeError\<close> fallback of the source is for values that are
  not strings; on a string the first branch always returns.
\<close>

definition len_without_format :: "string \<Rightarrow> int" where
  "len_without_format text = int (length (remove_formatting text))"

section \<open>Character classes and string methods used by the wrappers\<close>

text \<open>\<open>textwrap._whitespace\<close>, the characters \<open>'\t\n\x0b\x0c\r '\<close>.\<close>

definition ws_char :: "char \<Rightarrow> bool" where
  "ws_char c = (let n = code c in (9 \<le> n \<and> n \<le> 13) \<or> n = 32)"

text \<open>\<open>c.isspace()\<close>, the characters that \<open>strip()\<close> and \<open>split()\<close> treat as whitespace.\<close>

definition isspace :: "char \<Rightarrow> bool" where
  "isspace c = (let n = code c in (9 \<le> n \<and> n \<le> 13) \<or> (28 \<le> n \<and> n \<le> 32) \<or> n = 133 \<or> n = 160)"

text \<open>The regular-expression classes \<open>\d\<close>, \<open>\w\<close>, \<open>[^\d\W]\<close> and \<open>[\w!"'&.,?]\<close>.\<close>

definition re_digit :: "char \<Rightarrow> bool" where
  "re_digit c = (let n = code c in 48 \<le> n \<and> n \<le> 57)"

definition re_word :: "char \<Rightarrow> bool" where
  "re_word c =
     (let n = code c
      in (48 \<le> n \<and> n \<le> 57) \<or> (65 \<le> n \<and> n \<le> 90) \<or> n = 95 \<or> (97 \<le> n \<and> n \<le> 122)
         \<or> n = 170 \<or> n = 178 \<or> n = 179 \<or> n = 181 \<or> n = 185 \<or> n = 186
         \<or> (188 \<le> n \<and> n \<le> 190) \<or> (192 \<le> n \<and> n \<le> 214) \<or> (216 \<le> n \<and> n \<le> 246)
         \<or> (248 \<le> n \<and> n \<le> 255))"

definition re_letter :: "char \<Rightarrow> bool" where
  "re_letter c = (re_word c \<and> \<not> re_digit c)"

definition word_punct :: "char \<Rightarrow> bool" where
  "word_punct c = (re_word c \<or> c \<in> set ''!\"'&.,?'')"

definition is_hyphen :: "char \<Rightarrow> bool" where
  "is_hyphen c = (c = CHR ''-'')"

text \<open>\<open>s.strip()\<close>, \<open>' ' * n\<close>, \<open>s.ljust(w)\<close>, \<open>s.rjust(w)\<close>, \<open>s.center(w)\<close>.\<close>

definition str_strip :: "string \<Rightarrow> string" where
  "str_strip s = rev (dropWhile isspace (rev (dropWhile isspace s)))"

definition spaces :: "int \<Rightarrow> string" where
  "spaces n = replicate (nat n) CHR '' ''"

definition ljust :: "string \<Rightarrow> int \<Rightarrow> string" where
  "ljust s w = s @ spaces (w - int (length s))"

definition rjust :: "string \<Rightarrow> int \<Rightarrow> string" where
  "rjust s w = spaces (w - int (length s)) @ s"

definition center :: "string \<Rightarrow> int \<Rightarrow> string" where
  "center s w =
     (let marg = w - int (length s);
          left = marg div 2 + (if odd marg \<and> odd w then 1 else 0)
      in if marg \<le> 0 then s else spaces left @ s @ spaces (marg - left))"

text \<open>
  Slices \<open>s[:e]\<close> and \<open>s[e:]\<close>: a negative bound counts from the end.
\<close>

definition slice_to :: "'a list \<Rightarrow> int \<Rightarrow> 'a list" where
  "slice_to s e = (if 0 \<le> e then take (nat e) s else take (nat (int (length s) + e)) s)"

definition slice_from :: "'a list \<Rightarrow> int \<Rightarrow> 'a list" where
  "slice_from s e = (if 0 \<le> e then drop (nat e) s else drop (nat (int (length s) + e)) s)"

text \<open>\<open>s.find(c)\<close> and \<open>s.rfind(c)\<close> for a single character: an index, or \<open>-1\<close>.\<close>

fun str_find :: "char \<Rightarrow> string \<Rightarrow> int" where
  "str_find c [] = - 1"
| "str_find c (x # xs) =
     (if x = c then 0 else (let r = str_find c xs in if 0 \<le> r then r + 1 else - 1))"

fun str_rfind :: "char \<Rightarrow> string \<Rightarrow> int" where
  "str_rfind c [] = - 1"
| "str_rfind c (x # xs) =
     (let r = str_rfind c xs in if 0 \<le> r then r + 1 else if x = c then 0 else - 1)"

text \<open>
  \<open>s.expandtabs(tabsize)\<close>: a tab advances to the next multiple of \<open>tabsize\<close> columns, a
  line feed or carriage return resets the column.
\<close>

fun expandtabs_from :: "nat \<Rightarrow> nat \<Rightarrow> string \<Rightarrow> string" where
  "expandtabs_from tabsize line_pos [] = []"
| "expandtabs_from tabsize line_pos (c # cs) =
     (if c = CHR 0x09
      then (if 0 < tabsize
            then (let incr = tabsize - line_pos mod tabsize
                  in replicate incr CHR '' '' @ expandtabs_from tabsize (line_pos + incr) cs)
            else expandtabs_from tabsize line_pos cs)
      else c # expandtabs_from tabsize
                 (if c = CHR 0x0A \<or> c = CHR 0x0D then 0 else line_pos + 1) cs)"

definition expandtabs :: "nat \<Rightarrow> string \<Rightarrow> string" where
  "expandtabs tabsize s = expandtabs_from tabsize 0 s"

section \<open>The plain word wrapper: \<open>textwrap.TextWrapper\<close>\<close>

text \<open>
  \<open>print_table\<close> wraps every cell with
  \<open>textwrap.TextWrapper(subsequent_indent=..., width=...).wrap\<close>, every other attribute at
  its default (\<open>initial_indent=''\<close>, \<open>expand_tabs\<close>, \<open>replace_whitespace\<close>,
  \<open>break_long_words\<close>, \<open>drop_whitespace\<close>, \<open>break_on_hyphens\<close>, \<open>tabsize=8\<close>, no
  \<open>max_lines\<close>). The wrapper is the standard library's (CPython 3.11); its methods are
  embedded here under their own names for these attribute values.
\<close>

datatype error = IndexError | ValueError | AttributeError

definition munge_whitespace :: "string \<Rightarrow> string" where
  "munge_whitespace text = map (\<lambda>c. if ws_char c then CHR '' '' else c) (expandtabs 8 text)"

text \<open>
  \<open>_split\<close> is \<open>wordsep_re.split(text)\<close> without the empty strings. The pattern matches at
  every position of a text (a run of whitespace, an em-dash between words, or a word up to
  its end, up to a hyphen inside a compound, or up to an em-dash), so the chunks are the
  successive matches. The look-behinds read the text before the position, kept reversed in
  \<open>rpre\<close>.

  \<open>emdash_ahead s\<close> is the look-ahead \<open>-{2,}\w\<close> at \<open>s\<close>; \<open>hyphen_behind rpre\<close> is the
  look-behind \<open>(?<=lt{2}-) | (?<=lt-lt-)\<close> just after a hyphen, \<open>rpre\<close> being the text
  before that hyphen; \<open>hyphen_ahead s\<close> is the look-ahead \<open>lt -? lt\<close>.
\<close>

definition emdash_ahead :: "string \<Rightarrow> bool" where
  "emdash_ahead s =
     (let n = length (takeWhile is_hyphen s)
      in 2 \<le> n \<and> (case drop n s of [] \<Rightarrow> False | c # _ \<Rightarrow> re_word c))"

fun hyphen_behind :: "string \<Rightarrow> bool" where
  "hyphen_behind (b # c # d # _) =
     ((re_letter b \<and> re_letter c) \<or> (re_letter b \<and> c = CHR ''-'' \<and> re_letter d))"
| "hyphen_behind [b, c] = (re_letter b \<and> re_letter c)"
| "hyphen_behind _ = False"

fun hyphen_ahead :: "string \<Rightarrow> bool" where
  "hyphen_ahead (b # c # d # _) =
     (re_letter b \<and> ((c = CHR ''-'' \<and> re_letter d) \<or> re_letter c))"
| "hyphen_ahead [b, c] = (re_letter b \<and> re_letter c)"
| "hyphen_ahead _ = False"

text \<open>
  The third alternative, \<open>nws+?\<close> followed by one of its three endings: \<open>word_more rpre s\<close>
  is the number of further characters of \<open>s\<close> the match takes when at least one character
  of the word has been taken (it heads \<open>rpre\<close>). The lazy quantifier tries the endings at
  the shortest length first, in the order hyphen, end of word, em-dash.
\<close>

fun word_more :: "string \<Rightarrow> string \<Rightarrow> nat" where
  "word_more rpre [] = 0"
| "word_more rpre (c # cs) =
     (if c = CHR ''-'' \<and> hyphen_behind rpre \<and> hyphen_ahead cs then 1
      else if ws_char c then 0
      else if (case rpre of [] \<Rightarrow> False | p # _ \<Rightarrow> word_punct p) \<and> emdash_ahead (c # cs) then 0
      else 1 + word_more (c # rpre) cs)"

text \<open>
  \<open>chunk_more rpre c cs\<close>: the match at a position whose text is \<open>c # cs\<close> takes \<open>c\<close> and
  this many further characters.
\<close>

definition chunk_more :: "string \<Rightarrow> char \<Rightarrow> string \<Rightarrow> nat" where
  "chunk_more rpre c cs =
     (if ws_char c then length (takeWhile ws_char cs)
      else if (case rpre of [] \<Rightarrow> False | p # _ \<Rightarrow> word_punct p) \<and> emdash_ahead (c # cs)
      then length (takeWhile is_hyphen cs)
      else word_more (c # rpre) cs)"

fun split_from :: "string \<Rightarrow> string \<Rightarrow> string list" where
  "split_from rpre [] = []"
| "split_from rpre (c # cs) =
     (let n = chunk_more rpre c cs
      in (c # take n cs) # split_from (rev (c # take n cs) @ rpre) (drop n cs))"

definition split :: "string \<Rightarrow> string list" where
  "split text = split_from [] text"

definition split_chunks :: "string \<Rightarrow> string list" where
  "split_chunks text = split (munge_whitespace text)"

text \<open>
  \<open>_wrap_chunks\<close> reverses the chunks and pops them from the end; here the list stays in
  order and its head is \<open>chunks[-1]\<close>. \<open>fill_line\<close> is the inner \<open>while\<close> loop.
\<close>

fun fill_line :: "int \<Rightarrow> string list \<Rightarrow> int \<Rightarrow> string list \<Rightarrow> string list \<times> int \<times> string list" where
  "fill_line width cur_line cur_len [] = (cur_line, cur_len, [])"
| "fill_line width cur_line cur_len (c # cs) =
     (let l = int (length c)
      in if cur_len + l \<le> width then fill_line width (cur_line @ [c]) (cur_len + l) cs
         else (cur_line, cur_len, c # cs))"

text \<open>
  \<open>_handle_long_word\<close> with \<open>break_long_words\<close> and \<open>break_on_hyphens\<close> set; it is called
  with a chunk at hand. It returns the new \<open>cur_line\<close> and the new chunks.
\<close>

fun handle_long_word :: "string list \<Rightarrow> string list \<Rightarrow> int \<Rightarrow> int \<Rightarrow> string list \<times> string list" where
  "handle_long_word [] cur_line cur_len width = (cur_line, [])"
| "handle_long_word (chunk # rest) cur_line cur_len width =
     (let space_left = (if width < 1 then 1 else width - cur_len);
          hyphen = str_rfind CHR ''-'' (slice_to chunk space_left);
          end = (if space_left < int (length chunk) \<and> 0 < hyphen
                    \<and> list_ex (\<lambda>c. c \<noteq> CHR ''-'') (slice_to chunk hyphen)
                 then hyphen + 1 else space_left)
      in (cur_line @ [slice_to chunk end], slice_from chunk end # rest))"

text \<open>One pass of the outer \<open>while\<close> loop: the lines so far and the chunks left, updated.\<close>

definition wrap_step :: "int \<Rightarrow> string \<Rightarrow> string list \<Rightarrow> string list \<Rightarrow> string list \<times> string list" where
  "wrap_step w subsequent_indent lines chunks =
     (let indent = (if lines \<noteq> [] then subsequent_indent else []);
          width = w - int (length indent);
          chunks0 = (if str_strip (hd chunks) = [] \<and> lines \<noteq> [] then tl chunks else chunks);
          (cur_line, cur_len, chunks1) = fill_line width [] 0 chunks0;
          (cur_line2, chunks2) =
             (if chunks1 \<noteq> [] \<and> width < int (length (hd chunks1))
              then handle_long_word chunks1 cur_line cur_len width
              else (cur_line, chunks1));
          cur_line3 = (if cur_line2 \<noteq> [] \<and> str_strip (last cur_line2) = []
                       then butlast cur_line2 else cur_line2)
      in (if cur_line3 \<noteq> [] then lines @ [indent @ concat cur_line3] else lines, chunks2))"

text \<open>
  The outer loop. \<open>_wrap_chunks\<close> raises \<open>ValueError\<close> before the loop unless
  \<open>0 < self.width\<close>, so the loop only ever runs with a positive \<open>w\<close>; the test on \<open>w\<close> in
  \<open>wrap_loop\<close> repeats that precondition, under which every pass consumes a chunk or a
  part of one.
\<close>

definition chunk_size :: "string list \<Rightarrow> nat" where
  "chunk_size chunks = sum_list (map (\<lambda>c. Suc (length c)) chunks)"

lemma chunk_size_simps:
  "chunk_size [] = 0"
  "chunk_size (c # cs) = Suc (length c) + chunk_size cs"
  by (simp_all add: chunk_size_def)

lemma chunk_size_tl: "chunks \<noteq> [] \<Longrightarrow> chunk_size (tl chunks) < chunk_size chunks"
  by (cases chunks) (simp_all add: chunk_size_simps)

lemma fill_line_size:
  "chunk_size (snd (snd (fill_line width cur_line cur_len chunks))) \<le> chunk_size chunks"
proof (induction chunks arbitrary: cur_line cur_len)
  case Nil
  show ?case by simp
next
  case (Cons c cs)
  have "chunk_size (snd (snd (fill_line width (cur_line @ [c]) (cur_len + int (length c)) cs)))
          \<le> chunk_size cs"
    by (rule Cons.IH)
  then show ?case by (simp add: Let_def chunk_size_simps)
qed

lemma fill_line_fits:
  assumes "cur_len + int (length c) \<le> width"
  shows "chunk_size (snd (snd (fill_line width cur_line cur_len (c # cs)))) < chunk_size (c # cs)"
proof -
  have "chunk_size (snd (snd (fill_line width (cur_line @ [c]) (cur_len + int (length c)) cs)))
          \<le> chunk_size cs"
    by (rule fill_line_size)
  with assms show ?thesis by (simp add: Let_def chunk_size_simps)
qed

lemma fill_line_full:
  assumes "\<not> cur_len + int (length c) \<le> width"
  shows "fill_line width cur_line cur_len (c # cs) = (cur_line, cur_len, c # cs)"
  using assms by (simp add: Let_def)

lemma slice_from_length: "length (slice_from s e) \<le> length s"
  by (simp add: slice_from_def)

lemma slice_from_shorter: "s \<noteq> [] \<Longrightarrow> 1 \<le> e \<Longrightarrow> length (slice_from s e) < length s"
  by (simp add: slice_from_def)

lemma handle_long_word_size:
  "chunk_size (snd (handle_long_word chunks cur_line cur_len width)) \<le> chunk_size chunks"
proof (cases chunks)
  case Nil
  then show ?thesis by simp
next
  case (Cons chunk rest)
  then show ?thesis
    by (simp add: Let_def chunk_size_simps slice_from_length)
qed

lemma str_rfind_lower: "- 1 \<le> str_rfind c s"
  by (induction s) (auto simp: Let_def)

lemma handle_long_word_progress:
  assumes "chunk \<noteq> []"
  shows "chunk_size (snd (handle_long_word (chunk # rest) cur_line 0 width))
           < chunk_size (chunk # rest)"
proof -
  define space_left :: int where "space_left = (if width < 1 then 1 else width - 0)"
  define hyphen where "hyphen = str_rfind CHR ''-'' (slice_to chunk space_left)"
  define end' where "end' = (if space_left < int (length chunk) \<and> 0 < hyphen
                    \<and> list_ex (\<lambda>c. c \<noteq> CHR ''-'') (slice_to chunk hyphen)
                 then hyphen + 1 else space_left)"
  have "1 \<le> space_left" by (simp add: space_left_def)
  then have "1 \<le> end'" by (simp add: end'_def)
  then have "length (slice_from chunk end') < length chunk"
    using assms by (rule slice_from_shorter [rotated])
  moreover have "snd (handle_long_word (chunk # rest) cur_line 0 width) = slice_from chunk end' # rest"
    by (simp add: Let_def end'_def hyphen_def space_left_def)
  ultimately show ?thesis by (simp add: chunk_size_simps)
qed

lemma wrap_step_decreases:
  assumes w: "0 < w" and ne: "chunks \<noteq> []"
  shows "chunk_size (snd (wrap_step w subsequent_indent lines chunks)) < chunk_size chunks"
proof -
  define indent where "indent = (if lines \<noteq> [] then subsequent_indent else [])"
  define width where "width = w - int (length indent)"
  define chunks0 where
    "chunks0 = (if str_strip (hd chunks) = [] \<and> lines \<noteq> [] then tl chunks else chunks)"
  define filled where "filled = fill_line width [] 0 chunks0"
  define cur_line where "cur_line = fst filled"
  define cur_len where "cur_len = fst (snd filled)"
  define chunks1 where "chunks1 = snd (snd filled)"
  define chunks2 where
    "chunks2 = (if chunks1 \<noteq> [] \<and> width < int (length (hd chunks1))
                then snd (handle_long_word chunks1 cur_line cur_len width) else chunks1)"
  have step: "snd (wrap_step w subsequent_indent lines chunks) = chunks2"
    by (simp add: wrap_step_def Let_def chunks2_def chunks1_def cur_len_def cur_line_def
        filled_def chunks0_def width_def indent_def split: prod.splits)
  have le21: "chunk_size chunks2 \<le> chunk_size chunks1"
    by (simp add: chunks2_def handle_long_word_size)
  have le10: "chunk_size chunks1 \<le> chunk_size chunks0"
    unfolding chunks1_def filled_def by (rule fill_line_size)
  show ?thesis
  proof (cases "str_strip (hd chunks) = [] \<and> lines \<noteq> []")
    case True
    then have "chunk_size chunks0 < chunk_size chunks"
      using ne by (simp add: chunks0_def chunk_size_tl)
    with le21 le10 step show ?thesis by simp
  next
    case False
    obtain c cs where chunks: "chunks = c # cs"
      using ne by (cases chunks) auto
    have c0: "chunks0 = c # cs"
      using False chunks by (simp add: chunks0_def)
    show ?thesis
    proof (cases "0 + int (length c) \<le> width")
      case True
      then have "chunk_size chunks1 < chunk_size chunks"
        unfolding chunks1_def filled_def c0 chunks by (rule fill_line_fits)
      with le21 step show ?thesis by simp
    next
      case full: False
      have filled: "filled = ([], 0, c # cs)"
        unfolding filled_def c0 using full by (rule fill_line_full)
      have "c \<noteq> []"
      proof
        assume "c = []"
        with full have "width < 0" by simp
        with w have "lines \<noteq> []" by (auto simp: width_def indent_def)
        moreover have "str_strip (hd chunks) = []"
          using \<open>c = []\<close> chunks by (simp add: str_strip_def)
        ultimately show False using False by simp
      qed
      then have "chunk_size (snd (handle_long_word (c # cs) [] 0 width)) < chunk_size (c # cs)"
        by (rule handle_long_word_progress)
      moreover have "chunks2 = snd (handle_long_word (c # cs) [] 0 width)"
        using full by (simp add: chunks2_def chunks1_def cur_line_def cur_len_def filled)
      ultimately show ?thesis using step chunks by simp
    qed
  qed
qed

function wrap_loop :: "int \<Rightarrow> string \<Rightarrow> string list \<Rightarrow> string list \<Rightarrow> string list" where
  "wrap_loop w subsequent_indent lines chunks =
     (if w \<le> 0 \<or> chunks = [] then lines
      else wrap_loop w subsequent_indent
             (fst (wrap_step w subsequent_indent lines chunks))
             (snd (wrap_step w subsequent_indent lines chunks)))"
  by pat_completeness auto
termination
proof (relation "measure (\<lambda>(w, subsequent_indent, lines, chunks). chunk_size chunks)")
  show "wf (measure (\<lambda>(w, subsequent_indent, lines, chunks). chunk_size chunks))"
    by simp
next
  fix w :: int and subsequent_indent :: string and lines chunks :: "string list"
  assume "\<not> (w \<le> 0 \<or> chunks = [])"
  then have "chunk_size (snd (wrap_step w subsequent_indent lines chunks)) < chunk_size chunks"
    by (simp add: wrap_step_decreases)
  then show "((w, subsequent_indent, fst (wrap_step w subsequent_indent lines chunks),
               snd (wrap_step w subsequent_indent lines chunks)),
              (w, subsequent_indent, lines, chunks))
             \<in> measure (\<lambda>(w, subsequent_indent, lines, chunks). chunk_size chunks)"
    by (simp add: case_prod_beta)
qed

declare wrap_loop.simps [simp del]

definition wrap_chunks :: "int \<Rightarrow> string \<Rightarrow> string list \<Rightarrow> error + string list" where
  "wrap_chunks w subsequent_indent chunks =
     (if w \<le> 0 then Inl ValueError else Inr (wrap_loop w subsequent_indent [] chunks))"

text \<open>\<open>TextWrapper(subsequent_indent=subsequent_indent, width=w).wrap(text)\<close>.\<close>

definition wrap :: "int \<Rightarrow> string \<Rightarrow> string \<Rightarrow> error + string list" where
  "wrap w subsequent_indent text = wrap_chunks w subsequent_indent (split_chunks text)"

section \<open>The table layout engine: \<open>print_table\<close>\<close>

text \<open>
  The keyword arguments of \<open>print_table\<close>. The dictionaries \<open>row_colour\<close> and
  \<open>row_extra_text\<close> are maps from row indices; \<open>sub_colour\<close> is iterated in insertion
  order, so it is a list of pairs. \<open>fixed_col_widths\<close> is \<open>None\<close> or a list of widths.
  An empty \<open>header_format\<close> is the falsy value.
\<close>

record table_options =
  alignments :: string
  max_col_width :: int
  col_separation :: int
  indent :: int
  row_colour :: "nat \<rightharpoonup> string"
  sub_colour :: "(string \<times> string) list"
  row_extra_text :: "nat \<rightharpoonup> string"
  leading_newline :: bool
  subsequent_indent :: string
  return_str :: bool
  header_format :: string
  hide_header :: bool
  fixed_col_widths :: "int list option"
  left_align_header :: bool
  bottom_align_header :: bool
  verbosity :: int

definition default_options :: table_options where
  "default_options =
     \<lparr>alignments = [], max_col_width = 30, col_separation = 3, indent = 2,
      row_colour = Map.empty, sub_colour = [], row_extra_text = Map.empty,
      leading_newline = False, subsequent_indent = [], return_str = False,
      header_format = ''underline'', hide_header = False, fixed_col_widths = None,
      left_align_header = True, bottom_align_header = True, verbosity = 1\<rparr>"

text \<open>\<open>x[:column_count]\<close> followed by \<open>x + [''] * (column_count - len(x))\<close>.\<close>

definition normalise_row :: "nat \<Rightarrow> string list \<Rightarrow> string list" where
  "normalise_row column_count x =
     take column_count x @ replicate (column_count - length (take column_count x)) []"

definition resolve_alignments :: "nat \<Rightarrow> string \<Rightarrow> string" where
  "resolve_alignments column_count al =
     take column_count (al @ replicate (column_count - length al) CHR ''L'')"

text \<open>
  The automatic widths: one pass of the \<open>for row in table\<close> loop is \<open>widen\<close>. Every row
  has been normalised to \<open>column_count\<close> cells, the length of \<open>col_widths\<close>, so
  \<open>col_widths[i]\<close> is always in range.
\<close>

definition widen :: "int \<Rightarrow> int list \<Rightarrow> string list \<Rightarrow> int list" where
  "widen mcw col_widths row =
     map (\<lambda>(i, x). min (max (col_widths ! i) (len_without_format x)) mcw) (enumerate 0 row)"

definition resolve_col_widths :: "table_options \<Rightarrow> nat \<Rightarrow> string list list \<Rightarrow> int list" where
  "resolve_col_widths opts column_count table =
     (case fixed_col_widths opts of
        Some fixed \<Rightarrow> fixed
      | None \<Rightarrow> foldl (widen (max_col_width opts)) (replicate column_count 0) table)"

text \<open>Results of a sequence of calls that may raise: the first error ends it.\<close>

fun collect :: "(error + 'a) list \<Rightarrow> error + 'a list" where
  "collect [] = Inr []"
| "collect (Inl e # rs) = Inl e"
| "collect (Inr x # rs) = (case collect rs of Inl e \<Rightarrow> Inl e | Inr xs \<Rightarrow> Inr (x # xs))"

definition wrap_row :: "table_options \<Rightarrow> string list \<Rightarrow> error + string list list" where
  "wrap_row opts row =
     (case fixed_col_widths opts of
        Some fixed \<Rightarrow>
          collect (map (\<lambda>(col, fixed_width). wrap fixed_width (subsequent_indent opts) col)
                     (zip row fixed))
      | None \<Rightarrow> collect (map (wrap (max_col_width opts) (subsequent_indent opts)) row))"

text \<open>\<open>max(len(x) for x in wrapped_row)\<close>, which raises \<open>ValueError\<close> on no cells.\<close>

definition max_len :: "'a list list \<Rightarrow> error + nat" where
  "max_len wrapped_row =
     (if wrapped_row = [] then Inl ValueError else Inr (foldl max 0 (map length wrapped_row)))"

definition bottom_align :: "nat \<Rightarrow> string list list \<Rightarrow> string list list" where
  "bottom_align row_rows wrapped_row = map (\<lambda>x. replicate (row_rows - length x) [] @ x) wrapped_row"

definition align_cell :: "table_options \<Rightarrow> nat \<Rightarrow> string \<times> int \<times> char \<Rightarrow> string" where
  "align_cell opts i cell =
     (case cell of (val, col_width, alignment) \<Rightarrow>
        if alignment = CHR ''L'' \<or> (i = 0 \<and> left_align_header opts) then ljust val col_width
        else if alignment = CHR ''C'' then center val col_width
        else rjust val col_width)"

fun str_join :: "string \<Rightarrow> string list \<Rightarrow> string" where
  "str_join sep [] = []"
| "str_join sep [x] = x"
| "str_join sep (x # y # ys) = x @ sep @ str_join sep (y # ys)"

text \<open>
  Physical line \<open>j\<close> of row \<open>i\<close> before any styling: the aligned cells joined by the
  separator, then the entry of \<open>row_extra_text\<close> for the row.
\<close>

definition joined_line :: "table_options \<Rightarrow> int list \<Rightarrow> string \<Rightarrow> nat \<Rightarrow> string list list \<Rightarrow> nat \<Rightarrow> string" where
  "joined_line opts col_widths als i wrapped_row j =
     (let row_line = map (\<lambda>x. if j < length x then x ! j else []) wrapped_row;
          aligned_row = map (align_cell opts i) (zip row_line (zip col_widths als))
      in str_join (spaces (col_separation opts)) aligned_row)"

definition add_extra_text :: "table_options \<Rightarrow> nat \<Rightarrow> string \<Rightarrow> string" where
  "add_extra_text opts i row_str =
     (case row_extra_text opts i of Some extra \<Rightarrow> row_str @ extra | None \<Rightarrow> row_str)"

text \<open>
  The styling of a line: the header format on row 0, the row colour, then the substring
  colours in order.
\<close>

definition style_line :: "table_options \<Rightarrow> nat \<Rightarrow> string \<Rightarrow> string" where
  "style_line opts i row_str =
     (let s1 = (if i = 0 \<and> header_format opts \<noteq> [] then colour row_str (header_format opts)
                else row_str);
          s2 = (case row_colour opts i of Some c \<Rightarrow> colour s1 c | None \<Rightarrow> s1)
      in foldl (\<lambda>s (text, colour_name). str_replace text (colour text colour_name) s)
           s2 (sub_colour opts))"

text \<open>
  \<open>re.sub('\033\[4m', '', row_str)\<close> deletes the occurrences of the literal underline
  code found from the left, as \<open>replace\<close> does; it is applied on every line of a row but
  the last.
\<close>

definition strip_underline :: "nat \<Rightarrow> nat \<Rightarrow> string \<Rightarrow> string" where
  "strip_underline row_rows j row_str =
     (if j + 1 < row_rows \<and> str_contains UNDERLINE row_str
      then str_replace UNDERLINE [] row_str else row_str)"

definition physical_line :: "table_options \<Rightarrow> int list \<Rightarrow> string \<Rightarrow> nat \<Rightarrow> string list list \<Rightarrow> nat \<Rightarrow> nat \<Rightarrow> string" where
  "physical_line opts col_widths als i wrapped_row row_rows j =
     spaces (indent opts)
       @ strip_underline row_rows j
           (style_line opts i (add_extra_text opts i (joined_line opts col_widths als i wrapped_row j)))"

text \<open>
  The body of the loop over the rows, for a row that is not skipped: \<open>layout_row\<close> wraps
  the cells, counts the physical lines \<open>row_rows\<close> and bottom-aligns a header;
  \<open>row_lines\<close> is the loop over \<open>j\<close>.
\<close>

definition layout_row :: "table_options \<Rightarrow> nat \<Rightarrow> string list \<Rightarrow> error + nat \<times> string list list" where
  "layout_row opts i row =
     (case wrap_row opts row of
        Inl e \<Rightarrow> Inl e
      | Inr wrapped_row \<Rightarrow>
          (case max_len wrapped_row of
             Inl e \<Rightarrow> Inl e
           | Inr row_rows \<Rightarrow>
               Inr (row_rows,
                    if i = 0 \<and> bottom_align_header opts
                    then bottom_align row_rows wrapped_row else wrapped_row)))"

definition row_lines :: "table_options \<Rightarrow> int list \<Rightarrow> string \<Rightarrow> nat \<Rightarrow> string list \<Rightarrow> error + string list" where
  "row_lines opts col_widths als i row =
     (case layout_row opts i row of
        Inl e \<Rightarrow> Inl e
      | Inr (row_rows, wrapped_row) \<Rightarrow>
          Inr (map (physical_line opts col_widths als i wrapped_row row_rows) [0..<row_rows]))"

fun table_lines :: "table_options \<Rightarrow> int list \<Rightarrow> string \<Rightarrow> nat \<Rightarrow> string list list \<Rightarrow> error + string list" where
  "table_lines opts col_widths als i [] = Inr []"
| "table_lines opts col_widths als i (row # rows) =
     (if hide_header opts \<and> i = 0 then table_lines opts col_widths als (Suc i) rows
      else (case row_lines opts col_widths als i row of
              Inl e \<Rightarrow> Inl e
            | Inr ls \<Rightarrow>
                (case table_lines opts col_widths als (Suc i) rows of
                   Inl e \<Rightarrow> Inl e
                 | Inr rest \<Rightarrow> Inr (ls @ rest))))"

text \<open>
  \<open>print_table\<close> returns the lines passed to \<open>log.log\<close>, in order, and the returned value
  (\<open>None\<close> unless \<open>return_str\<close>). An exception is the \<open>Inl\<close> result; what was logged before
  it is not kept.
\<close>

definition print_table :: "string list list \<Rightarrow> table_options \<Rightarrow> error + string list \<times> string option" where
  "print_table table opts =
     (case table of
        [] \<Rightarrow> Inl IndexError
      | header # _ \<Rightarrow>
          (let column_count = length header;
               table2 = map (normalise_row column_count) table;
               leading = (if leading_newline opts then [[]] else []);
               als = resolve_alignments column_count (alignments opts);
               col_widths = resolve_col_widths opts column_count table2
           in case table_lines opts col_widths als 0 table2 of
                Inl e \<Rightarrow> Inl e
              | Inr ls \<Rightarrow>
                  Inr (if return_str opts
                       then (leading, Some (concat (map (\<lambda>l. l @ [CHR 0x0A]) ls)))
                       else (leading @ ls, None))))"

section \<open>The help formatter: \<open>MyHelpFormatter\<close>\<close>

text \<open>
  An \<open>argparse\<close> action as \<open>_get_help_string\<close> reads it. A default is \<open>None\<close>, a string, or
  another object, which is kept as its \<open>str()\<close> and equals no string.
\<close>

datatype default_value = NoneDefault | StrDefault string | OtherDefault string

record action =
  action_help :: "string option"
  action_default :: default_value

definition SUPPRESS :: string where
  "SUPPRESS = ''==SUPPRESS==''"

definition is_suppress :: "default_value \<Rightarrow> bool" where
  "is_suppress d = (case d of StrDefault s \<Rightarrow> s = SUPPRESS | _ \<Rightarrow> False)"

definition str_of_default :: "default_value \<Rightarrow> string" where
  "str_of_default d =
     (case d of NoneDefault \<Rightarrow> ''None'' | StrDefault s \<Rightarrow> s | OtherDefault r \<Rightarrow> r)"

text \<open>
  \<open>_get_help_string\<close>. The conjunction is evaluated left to right: with a help of
  \<open>None\<close> the call of \<open>lower\<close> raises \<open>AttributeError\<close> unless the default is suppressed.
\<close>

definition get_help_string :: "action \<Rightarrow> error + string option" where
  "get_help_string a =
     (case action_help a of
        None \<Rightarrow> (if \<not> is_suppress (action_default a) then Inl AttributeError else Inr None)
      | Some help_text \<Rightarrow>
          (if \<not> is_suppress (action_default a)
              \<and> \<not> str_contains ''default'' (str_lower help_text)
              \<and> action_default a \<noteq> NoneDefault
           then Inr (Some (help_text @ '' (default: '' @ str_of_default (action_default a) @ '')''))
           else Inr (Some help_text)))"

text \<open>\<open>s.splitlines()\<close>: the line boundaries among the code points 0 to 255.\<close>

definition is_linebreak :: "char \<Rightarrow> bool" where
  "is_linebreak c = (let n = code c in (10 \<le> n \<and> n \<le> 13) \<or> (28 \<le> n \<and> n \<le> 30) \<or> n = 133)"

fun splitlines_from :: "bool \<Rightarrow> string \<Rightarrow> string \<Rightarrow> string list" where
  "splitlines_from after_cr cur [] = (if cur = [] then [] else [cur])"
| "splitlines_from after_cr cur (c # cs) =
     (if after_cr \<and> c = CHR 0x0A then splitlines_from False cur cs
      else if is_linebreak c then cur # splitlines_from (c = CHR 0x0D) [] cs
      else splitlines_from False (cur @ [c]) cs)"

definition splitlines :: "string \<Rightarrow> string list" where
  "splitlines s = splitlines_from False [] s"

text \<open>\<open>s.split()\<close> and \<open>s.split(sep)\<close> for a separator that is not empty.\<close>

fun split_ws_from :: "string \<Rightarrow> string \<Rightarrow> string list" where
  "split_ws_from cur [] = (if cur = [] then [] else [cur])"
| "split_ws_from cur (c # cs) =
     (if isspace c then (if cur = [] then split_ws_from [] cs else cur # split_ws_from [] cs)
      else split_ws_from (cur @ [c]) cs)"

definition str_split :: "string \<Rightarrow> string list" where
  "str_split s = split_ws_from [] s"

fun split_sep_from :: "string \<Rightarrow> string \<Rightarrow> string \<Rightarrow> string list" where
  "split_sep_from sep cur [] = [cur]"
| "split_sep_from sep cur (c # cs) =
     (if startswith sep (c # cs) then cur # split_sep_from sep [] (drop (length sep - 1) cs)
      else split_sep_from sep (cur @ [c]) cs)"

definition str_split_sep :: "string \<Rightarrow> string \<Rightarrow> string list" where
  "str_split_sep sep s = split_sep_from sep [] s"

text \<open>
  The loop \<open>for part in line_parts[1:]\<close> of \<open>_split_lines\<close> and the \<open>append\<close> after it.
\<close>

fun pack_parts :: "int \<Rightarrow> string \<Rightarrow> int \<Rightarrow> string \<Rightarrow> string list \<Rightarrow> string list" where
  "pack_parts width join wrap_column current_line [] = [current_line]"
| "pack_parts width join wrap_column current_line (part # parts) =
     (if int (length current_line) + int (length join) + 1 + int (length part) \<le> width
      then pack_parts width join wrap_column (current_line @ join @ '' '' @ part) parts
      else (current_line @ join) # pack_parts width join wrap_column (spaces wrap_column @ part) parts)"

text \<open>One line of a help text marked \<open>B|\<close> (\<open>is_b\<close>) or \<open>R|\<close>.\<close>

definition split_marked_line :: "bool \<Rightarrow> int \<Rightarrow> string \<Rightarrow> error + string list" where
  "split_marked_line is_b width line =
     (if int (length line) \<le> width then Inr [line]
      else if is_b then
        (case str_split line of
           [] \<Rightarrow> Inl IndexError
         | p # ps \<Rightarrow> Inr (pack_parts width [] (2 + str_find CHR ''='' line) (''  '' @ p) ps))
      else
        (case str_split_sep '', '' line of
           [] \<Rightarrow> Inl IndexError
         | p # ps \<Rightarrow> Inr (pack_parts width '','' 2 p ps)))"

text \<open>
  The unmarked case is \<open>argparse.HelpFormatter._split_lines\<close>: every run of ASCII
  whitespace becomes one space, the text is stripped and given to \<open>textwrap.wrap\<close>.
\<close>

fun collapse_ws :: "bool \<Rightarrow> string \<Rightarrow> string" where
  "collapse_ws in_run [] = []"
| "collapse_ws in_run (c # cs) =
     (if ws_char c then (if in_run then collapse_ws True cs else CHR '' '' # collapse_ws True cs)
      else c # collapse_ws False cs)"

definition split_lines :: "string \<Rightarrow> int \<Rightarrow> error + string list" where
  "split_lines text width =
     (if startswith ''B|'' text \<or> startswith ''R|'' text
      then (case collect (map (split_marked_line (startswith ''B|'' text) width)
                            (splitlines (drop 2 text))) of
              Inl e \<Rightarrow> Inl e
            | Inr wrapped \<Rightarrow> Inr (concat wrapped))
      else wrap width [] (str_strip (collapse_ws False text)))"

section \<open>Notions used to state the properties\<close>



section \<open>Verified properties\<close>

subsection \<open>Style encoder and visible width\<close>

lemmas style_defs = colour_def colour_code_def str_replace_def str_lower_def lower_char_def
  code_def Let_def

lemma colour_red: "colour t ''red'' = RED @ t @ END_FORMATTING"
  by (simp add: style_defs RED_def ESC_def)

lemma remove_formatting_plain:
  "ESC \<notin> set s \<Longrightarrow> remove_formatting (s @ r) = s @ remove_formatting r"
  by (induction s) auto

text \<open>
  C8: for a string without the escape character, colouring it red leaves its visible
  width (\<open>len_without_format\<close>) unchanged.
\<close>

theorem colour_red_keeps_visible_width:
  assumes "ESC \<notin> set s"
  shows "len_without_format (colour s ''red'') = len_without_format s"
proof -
  have "remove_formatting (colour s ''red'') = remove_formatting (s @ END_FORMATTING)"
    by (simp add: colour_red RED_def)
  also have "\<dots> = s @ remove_formatting END_FORMATTING"
    using assms by (rule remove_formatting_plain)
  also have "remove_formatting END_FORMATTING = []"
    by (simp add: END_FORMATTING_def)
  finally have "remove_formatting (colour s ''red'') = s" by simp
  moreover have "remove_formatting s = s"
    using remove_formatting_plain [OF assms, of "[]"] by simp
  ultimately show ?thesis by (simp add: len_without_format_def)
qed

theorem colour_red_keeps_visible_width_witness:
  "ESC \<notin> set ''contig 1'' \<and> len_without_format (colour ''contig 1'' ''red'') = 8"
  using colour_red_keeps_visible_width [of "''contig 1''"]
  by (simp add: ESC_def len_without_format_def)

text \<open>
  C10: each named wrapper returns what \<open>colour\<close> returns for the style name made of the
  same keywords.
\<close>

theorem wrappers_agree_with_colour:
  "green t = colour t ''green'' \<and>
   red t = colour t ''red'' \<and>
   dim t = colour t ''dim'' \<and>
   bold t = colour t ''bold'' \<and>
   underline t = colour t ''underline'' \<and>
   bold_green t = colour t ''bold green'' \<and>
   bold_red t = colour t ''bold red'' \<and>
   bold_underline t = colour t ''bold underline'' \<and>
   dim_underline t = colour t ''dim underline'' \<and>
   bold_yellow t = colour t ''bold yellow'' \<and>
   bold_yellow_underline t = colour t ''bold yellow underline'' \<and>
   bold_red_underline t = colour t ''bold red underline''"
  by (simp add: style_defs green_def red_def dim_def bold_def underline_def bold_green_def
      bold_red_def bold_underline_def dim_underline_def bold_yellow_def
      bold_yellow_underline_def bold_red_underline_def
      RED_def GREEN_def YELLOW_def DIM_def BOLD_def UNDERLINE_def ESC_def)

theorem wrappers_agree_with_colour_witness:
  "bold_red_underline ''x'' = colour ''x'' ''bold red underline'' \<and>
   colour ''x'' ''bold red underline''
     = ESC # ''[31m'' @ ESC # ''[1m'' @ ESC # ''[4m'' @ ''x'' @ ESC # ''[0m''"
  using wrappers_agree_with_colour [of "''x''"]
  by (simp add: bold_red_underline_def RED_def BOLD_def UNDERLINE_def END_FORMATTING_def)

subsection \<open>Help formatter\<close>

text \<open>
  C9: for an action with a help text, \<open>_get_help_string\<close> returns the help text followed
  by \<open>' (default: <value>)'\<close> exactly when the default is not the suppression marker, is
  not \<open>None\<close>, and the lowercased help text does not contain \<open>default\<close>; otherwise it
  returns the help text unchanged.
\<close>

theorem get_help_string_default_suffix:
  "get_help_string \<lparr>action_help = Some h, action_default = d\<rparr>
     = Inr (Some (if \<not> is_suppress d \<and> d \<noteq> NoneDefault
                      \<and> \<not> str_contains ''default'' (str_lower h)
                   then h @ '' (default: '' @ str_of_default d @ '')'' else h))
   \<and> ((get_help_string \<lparr>action_help = Some h, action_default = d\<rparr>
          = Inr (Some (h @ '' (default: '' @ str_of_default d @ '')'')))
        = (\<not> is_suppress d \<and> d \<noteq> NoneDefault \<and> \<not> str_contains ''default'' (str_lower h)))"
  by (auto simp: get_help_string_def)

theorem get_help_string_default_suffix_witness:
  "get_help_string \<lparr>action_help = Some ''Number of threads'', action_default = OtherDefault ''8''\<rparr>
     = Inr (Some ''Number of threads (default: 8)'')
   \<and> get_help_string \<lparr>action_help = Some ''Mode (Default: normal)'',
                        action_default = StrDefault ''normal''\<rparr>
     = Inr (Some ''Mode (Default: normal)'')"
proof -
  have l1: "str_lower ''Number of threads'' = ''number of threads''"
    by code_simp
  have l2: "str_lower ''Mode (Default: normal)'' = ''mode (default: normal)''"
    by code_simp
  show ?thesis
    using get_help_string_default_suffix [of "''Number of threads''" "OtherDefault ''8''"]
      get_help_string_default_suffix [of "''Mode (Default: normal)''" "StrDefault ''normal''"]
    by (simp add: l1 l2 is_suppress_def str_of_default_def SUPPRESS_def)
qed

text \<open>
  C3: the scenario \<open>R|opt1, opt2, opt3, opt4\<close> at width 10. The lines are packed, but the
  first one carries the comma appended when the line is closed and is 11 characters wide.
\<close>

theorem split_lines_list_scenario:
  "split_lines ''R|opt1, opt2, opt3, opt4'' 10 = Inr [''opt1, opt2,'', ''  opt3,'', ''  opt4'']
   \<and> len_without_format ''opt1, opt2,'' = 11"
  by code_simp

subsection \<open>Column widths\<close>

lemma normalise_row_length: "length (normalise_row cc x) = cc"
  by (simp add: normalise_row_def)

lemma widen_length: "length (widen m cw row) = length row"
  by (simp add: widen_def)

lemma widen_nth:
  "i < length row \<Longrightarrow> widen m cw row ! i = min (max (cw ! i) (len_without_format (row ! i))) m"
  by (simp add: widen_def nth_enumerate_eq)

lemma foldl_widen_length:
  "\<forall>row \<in> set rows. length row = cc \<Longrightarrow> length cw = cc
     \<Longrightarrow> length (foldl (widen m) cw rows) = cc"
  by (induction rows arbitrary: cw) (simp_all add: widen_length)

lemma foldl_widen_nth:
  assumes "\<forall>row \<in> set rows. length row = cc" and "i < cc" and "rows \<noteq> []"
  shows "foldl (widen m) cw rows ! i
           = min m (max (cw ! i) (Max ((\<lambda>row. len_without_format (row ! i)) ` set rows)))"
  using assms
proof (induction rows arbitrary: cw rule: rev_induct)
  case Nil
  then show ?case by simp
next
  case (snoc r rows)
  have r: "i < length r" using snoc.prems by simp
  show ?case
  proof (cases "rows = []")
    case True
    then show ?thesis using r by (simp add: widen_nth min.commute)
  next
    case False
    let ?f = "\<lambda>row. len_without_format (row ! i)"
    have IH: "foldl (widen m) cw rows ! i = min m (max (cw ! i) (Max (?f ` set rows)))"
      using snoc.IH snoc.prems False by simp
    have M: "Max (?f ` set (rows @ [r])) = max (?f r) (Max (?f ` set rows))"
      using False by (simp add: Max_insert)
    have arith: "\<And>a M x. min (max (min m (max a M)) x) m = min m (max a (max x M))" for m :: int
      by (auto simp: min_def max_def)
    have "foldl (widen m) cw (rows @ [r]) ! i = widen m (foldl (widen m) cw rows) r ! i"
      by simp
    also have "\<dots> = min (max (foldl (widen m) cw rows ! i) (?f r)) m"
      using r by (rule widen_nth)
    also have "\<dots> = min m (max (cw ! i) (max (?f r) (Max (?f ` set rows))))"
      unfolding IH by (rule arith)
    finally show ?thesis
      unfolding M .
  qed
qed

lemma len_without_format_nonneg: "0 \<le> len_without_format x"
  by (simp add: len_without_format_def)

text \<open>
  C6: without fixed widths, the width of column \<open>i\<close> is the minimum of \<open>max_col_width\<close>
  and the largest visible width among the cells of column \<open>i\<close> of the normalised rows.
\<close>

theorem auto_col_widths:
  assumes auto: "fixed_col_widths opts = None"
    and ne: "table \<noteq> []"
    and cc: "column_count = length (hd table)"
    and i: "i < column_count"
  shows "resolve_col_widths opts column_count (map (normalise_row column_count) table) ! i
           = min (max_col_width opts)
               (Max ((\<lambda>row. len_without_format (normalise_row column_count row ! i)) ` set table))"
proof -
  let ?t = "map (normalise_row column_count) table"
  let ?f = "\<lambda>row. len_without_format (row ! i)"
  have len: "\<forall>row \<in> set ?t. length row = column_count"
    by (simp add: normalise_row_length)
  have "?t \<noteq> []" using ne by simp
  with len i have "foldl (widen (max_col_width opts)) (replicate column_count 0) ?t ! i
      = min (max_col_width opts) (max (replicate column_count 0 ! i) (Max (?f ` set ?t)))"
    by (rule foldl_widen_nth)
  moreover have "0 \<le> Max (?f ` set ?t)"
  proof -
    obtain r where "r \<in> set ?t" using \<open>?t \<noteq> []\<close> by (cases ?t) auto
    then have "?f r \<le> Max (?f ` set ?t)" by simp
    with len_without_format_nonneg [of "r ! i"] show ?thesis by linarith
  qed
  moreover have "?f ` set ?t = (\<lambda>row. len_without_format (normalise_row column_count row ! i)) ` set table"
    by (simp add: image_image)
  ultimately show ?thesis
    using auto i by (simp add: resolve_col_widths_def)
qed


theorem auto_col_widths_witness:
  "fixed_col_widths default_options = None
   \<and> [[''Name'', ''Count''], [''alpha'', ''10''], [''beta'', ''2000'']] \<noteq> []
   \<and> (1::nat) < 2
   \<and> resolve_col_widths default_options 2
        (map (normalise_row 2) [[''Name'', ''Count''], [''alpha'', ''10''], [''beta'', ''2000'']]) ! 1
       = 5"
  using auto_col_widths [of default_options
      "[[''Name'', ''Count''], [''alpha'', ''10''], [''beta'', ''2000'']]" 2 1]
  by (simp add: default_options_def normalise_row_def len_without_format_def ESC_def)

subsection \<open>Failures of the table renderer and the row suffix\<close>
















text \<open>
  C4, as the code has it: when \<open>row_extra_text\<close> has an entry for row \<open>i\<close>, every physical
  line of the row is the indent followed by the styled text of the joined cells with the
  entry appended; the entry is added before the styling, on each line.
\<close>

theorem extra_text_on_every_line:
  assumes "row_extra_text opts i = Some extra"
    and "layout_row opts i row = Inr (row_rows, wrapped_row)"
  shows "row_lines opts cw als i row
           = Inr (map (\<lambda>j. spaces (indent opts)
                          @ strip_underline row_rows j
                              (style_line opts i (joined_line opts cw als i wrapped_row j @ extra)))
                    [0..<row_rows])"
  using assms by (simp add: row_lines_def physical_line_def add_extra_text_def)


theorem extra_text_on_every_line_witness:
  "row_extra_text (default_options\<lparr>max_col_width := 2, row_extra_text := [1 \<mapsto> ''!'']\<rparr>) 1 = Some ''!''
   \<and> layout_row (default_options\<lparr>max_col_width := 2, row_extra_text := [1 \<mapsto> ''!'']\<rparr>) 1 [''xx yy'']
       = Inr (2, [[''xx'', ''yy'']])
   \<and> row_lines (default_options\<lparr>max_col_width := 2, row_extra_text := [1 \<mapsto> ''!'']\<rparr>) [2] ''L'' 1 [''xx yy'']
       = Inr [''  xx!'', ''  yy!'']"
proof -
  let ?opts = "default_options\<lparr>max_col_width := 2, row_extra_text := [1 \<mapsto> ''!'']\<rparr>"
  have h1: "row_extra_text ?opts 1 = Some ''!''"
    by simp
  have h2: "layout_row ?opts 1 [''xx yy''] = Inr (2, [[''xx'', ''yy'']])"
    by code_simp
  have e: "map (\<lambda>j. spaces (indent ?opts)
                      @ strip_underline 2 j
                          (style_line ?opts 1 (joined_line ?opts [2] ''L'' 1 [[''xx'', ''yy'']] j @ ''!'')))
             [0..<2] = [''  xx!'', ''  yy!'']"
    by code_simp
  show ?thesis
    using extra_text_on_every_line [OF h1 h2, of "[2]" "''L''"] h1 h2
    by (simp only: e simp_thms)
qed

text \<open>
  The claim C4 as stated fails: in this table row 1 wraps into two lines and both carry
  the suffix.
\<close>

theorem extra_text_counterexample: "print_table [[''a''], [''xx yy'']]
     (default_options\<lparr>max_col_width := 2, header_format := [], row_extra_text := [1 \<mapsto> ''!'']\<rparr>)
   = Inr ([''  a '', ''  xx!'', ''  yy!''], None)"
  by code_simp

subsection \<open>The plain word wrapper\<close>

lemma expandtabs_from_no_tab:
  "CHR 0x09 \<notin> set s \<Longrightarrow> expandtabs_from tabsize line_pos s = s"
  by (induction s arbitrary: line_pos) auto

lemma ws_char_tab: "ws_char CHR 0x09"
  by (simp add: ws_char_def code_def)

lemma munge_whitespace_id:
  assumes "\<forall>c \<in> set s. ws_char c \<longrightarrow> c = CHR '' ''"
  shows "munge_whitespace s = s"
proof -
  have "CHR 0x09 \<notin> set s"
    using assms ws_char_tab by auto
  then have "expandtabs 8 s = s"
    by (simp add: expandtabs_def expandtabs_from_no_tab)
  moreover have "map (\<lambda>c. if ws_char c then CHR '' '' else c) s = s"
    using assms by (induction s) auto
  ultimately show ?thesis by (simp add: munge_whitespace_def)
qed

lemma concat_split_from: "concat (split_from rpre s) = s"
  by (induction rpre s rule: split_from.induct) (simp_all add: Let_def)

lemma split_from_nonempty: "ch \<in> set (split_from rpre s) \<Longrightarrow> ch \<noteq> []"
  by (induction rpre s rule: split_from.induct) (auto simp: Let_def)

lemma split_from_Nil_iff: "split_from rpre s = [] \<longleftrightarrow> s = []"
  by (cases s) (simp_all add: Let_def)




lemma wrap_loop_Nil: "wrap_loop w si lines [] = lines"
  by (simp add: wrap_loop.simps)

lemma wrap_loop_step:
  "0 < w \<Longrightarrow> chunks \<noteq> [] \<Longrightarrow>
   wrap_loop w si lines chunks
     = wrap_loop w si (fst (wrap_step w si lines chunks)) (snd (wrap_step w si lines chunks))"
  by (subst wrap_loop.simps) simp

lemma str_strip_nonempty:
  assumes "c \<noteq> []" and "\<not> isspace (last c)"
  shows "str_strip c \<noteq> []"
proof -
  have d: "dropWhile isspace c \<noteq> []"
    using assms by (metis dropWhile_eq_Nil_conv last_in_set)
  have "last (dropWhile isspace c) = last c"
    using assms by (induction c) (auto split: if_splits)
  then have "\<not> isspace (hd (rev (dropWhile isspace c)))"
    using assms(2) d by (simp add: hd_rev)
  then have "dropWhile isspace (rev (dropWhile isspace c)) = rev (dropWhile isspace c)"
    using d by (cases "rev (dropWhile isspace c)") auto
  then show ?thesis using d by (simp add: str_strip_def)
qed


lemma fill_line_all:
  "cur_len + int (length (concat chunks)) \<le> width \<Longrightarrow>
   fill_line width cur_line cur_len chunks
     = (cur_line @ chunks, cur_len + int (length (concat chunks)), [])"
  by (induction chunks arbitrary: cur_line cur_len) (simp_all add: Let_def)


lemma last_concat:
  "chunks \<noteq> [] \<Longrightarrow> last chunks \<noteq> [] \<Longrightarrow> last (concat chunks) = last (last chunks)"
  by (induction chunks) (auto simp: last_append)

lemma wrap_step_all_fit:
  assumes "chunks \<noteq> []" and "int (length (concat chunks)) \<le> w"
    and "str_strip (last chunks) \<noteq> []"
  shows "wrap_step w si [] chunks = ([concat chunks], [])"
  using assms by (simp add: wrap_step_def fill_line_all Let_def)

text \<open>
  C1, as the code has it: a text that is not empty, whose length (escape sequences
  counted) is at most the width, whose only whitespace characters are spaces and which
  does not end in whitespace, is returned as the single line.
\<close>

theorem wrap_text_that_fits:
  assumes ne: "text \<noteq> []"
    and fits: "int (length text) \<le> w"
    and plain: "\<forall>c \<in> set text. ws_char c \<longrightarrow> c = CHR '' ''"
    and last: "\<not> isspace (last text)"
  shows "wrap w si text = Inr [text]"
proof -
  let ?chunks = "split_from [] text"
  have chunks: "split_chunks text = ?chunks"
    using plain by (simp add: split_chunks_def split_def munge_whitespace_id)
  have cat: "concat ?chunks = text"
    by (rule concat_split_from)
  have cne: "?chunks \<noteq> []"
    using ne by (simp add: split_from_Nil_iff)
  then have lne: "last ?chunks \<noteq> []"
    using split_from_nonempty last_in_set by blast
  have "last (last ?chunks) = last text"
    using last_concat [OF cne lne] cat by simp
  with last lne have strip: "str_strip (last ?chunks) \<noteq> []"
    by (simp add: str_strip_nonempty)
  have pos: "0 < w"
    using ne fits by (cases "text") auto
  have "wrap_step w si [] ?chunks = ([text], [])"
    using wrap_step_all_fit [OF cne _ strip, of w si] fits cat by simp
  then have "wrap_loop w si [] ?chunks = [text]"
    using wrap_loop_step [OF pos cne, of si "[]"] by (simp add: wrap_loop_Nil)
  then show ?thesis
    using pos by (simp add: wrap_def wrap_chunks_def chunks)
qed

theorem wrap_text_that_fits_witness:
  "wrap 30 ''  '' ''contig 1'' = Inr [''contig 1'']"
proof -
  have "\<forall>c \<in> set ''contig 1''. ws_char c \<longrightarrow> c = CHR '' ''"
    by (simp add: ws_char_def code_def)
  moreover have "\<not> isspace (last ''contig 1'')"
    by (simp add: isspace_def code_def)
  ultimately show ?thesis
    using wrap_text_that_fits [of "''contig 1''" 30 "''  ''"] by simp
qed

text \<open>
  The claim C1 as stated fails: a coloured text of visible width 5 is wrapped at width 5
  because its codes count; the empty text gives no line; a trailing space is dropped.
\<close>

theorem wrap_text_that_fits_counterexample:
  "len_without_format (colour ''aa bb'' ''red'') = 5
   \<and> wrap 5 [] (colour ''aa bb'' ''red'') \<noteq> Inr [colour ''aa bb'' ''red'']
   \<and> wrap 5 [] [] = Inr []
   \<and> wrap 5 [] ''ab '' = Inr [''ab'']"
  by code_simp














subsection \<open>Stripping the underline code\<close>











subsection \<open>Wrapping introduces no escape character\<close>

lemma space_not_ESC: "CHR '' '' \<noteq> ESC"
  by (simp add: ESC_def)






















end
